theory Spec2Isabelle
  imports Complex_Main "HOL-Library.Word"
begin

section \<open>The per-channel signal generator of libsmu (src/signal.cpp)\<close>

text \<open>
  The class \<open>smu::Signal\<close> holds one sample source and one measurement destination.
  Its methods are embedded below as functions on an explicit machine state.

  Conventions of the embedding:
  \<^item> \<open>float\<close> and \<open>double\<close> are both modelled by \<^typ>\<open>real\<close>: arithmetic is exact, there
    is no rounding, no overflow to infinity and no NaN. IEEE arithmetic leaves the
    finite numbers at a division by zero, without raising. A returned sample that is
    an infinity or a NaN is the value \<open>NonFinite\<close>. With a period of 0 the stored
    phase itself becomes a NaN, which \<^typ>\<open>real\<close> cannot hold; there the model stops
    with \<open>NonFinitePhase\<close>.
  \<^item> \<open>size_t\<close> and \<open>uint64_t\<close> are 64-bit words; \<open>+\<close> and \<open>-\<close> wrap.
  \<^item> Caller-provided arrays live in an explicit store of blocks. A pointer is a block
    and an element offset. A read or write outside its block is undefined behaviour
    in C++ and is the error \<open>OutOfBounds\<close> here.
  \<^item> A callback is a function on an abstract world \<open>'w\<close>, disjoint from the store and
    from the Signal; callbacks are taken to be callable and to return normally.
\<close>

type_synonym float = real
type_synonym double = real
type_synonym size_t = "64 word"

datatype Src =
    SRC_CONSTANT | SRC_SQUARE | SRC_SAWTOOTH | SRC_STAIRSTEP
  | SRC_SINE | SRC_TRIANGLE | SRC_BUFFER | SRC_CALLBACK

text \<open>
  Modelled from the spec: the enumeration of destinations is declared in the header
  \<open>libsmu/signal.hpp\<close>, which is not among the sources. The specification lists the
  kinds None, Buffer and Callback; the source file names \<open>DEST_BUFFER\<close> and
  \<open>DEST_CALLBACK\<close> and treats every other value as no destination.
\<close>

datatype Dest = DEST_NONE | DEST_BUFFER | DEST_CALLBACK

datatype ptr = Null | Ptr nat nat

type_synonym heap = "nat \<rightharpoonup> float list"

datatype error = OutOfBounds | InvalidFree | NonFinitePhase

text \<open>What \<open>get_sample\<close> returns: a finite number, or an infinity or NaN.\<close>

datatype sample = Finite float | NonFinite

text \<open>
  Modelled from the spec: the class is declared in the header, which is not among
  the sources. The record has the fields that the source file uses, which are those
  of the data model of the specification. Their types follow the parameters they
  are assigned from: \<open>float\<close> levels, \<open>double\<close> period, duty and phase, \<open>size_t\<close>
  lengths, and a read index that is compared with a \<open>size_t\<close> and handed to the
  callback as \<open>uint64_t\<close>.
\<close>

record 'w Signal =
  m_src :: Src
  m_src_v1 :: float
  m_src_v2 :: float
  m_src_period :: double
  m_src_duty :: double
  m_src_phase :: double
  m_src_buf :: ptr
  m_src_i :: size_t
  m_src_buf_len :: size_t
  m_src_buf_repeat :: bool
  m_src_callback :: "64 word \<Rightarrow> 'w \<Rightarrow> float \<times> 'w"
  m_dest :: Dest
  m_dest_buf :: ptr
  m_dest_buf_len :: size_t
  m_dest_callback :: "float \<Rightarrow> 'w \<Rightarrow> 'w"
  m_latest_measurement :: float

record 'w machine =
  signal :: "'w Signal"
  heap :: heap
  world :: 'w

subsection \<open>Memory access\<close>

definition load :: "heap \<Rightarrow> ptr \<Rightarrow> nat \<Rightarrow> error + float" where
  "load h p i =
     (case p of
        Null \<Rightarrow> Inl OutOfBounds
      | Ptr b off \<Rightarrow>
          (case h b of
             None \<Rightarrow> Inl OutOfBounds
           | Some xs \<Rightarrow> if off + i < length xs then Inr (xs ! (off + i)) else Inl OutOfBounds))"

definition store :: "heap \<Rightarrow> ptr \<Rightarrow> float \<Rightarrow> error + heap" where
  "store h p v =
     (case p of
        Null \<Rightarrow> Inl OutOfBounds
      | Ptr b off \<Rightarrow>
          (case h b of
             None \<Rightarrow> Inl OutOfBounds
           | Some xs \<Rightarrow> if off < length xs then Inr (h(b \<mapsto> xs[off := v])) else Inl OutOfBounds))"

definition ptr_inc :: "ptr \<Rightarrow> ptr" where
  "ptr_inc p = (case p of Null \<Rightarrow> Null | Ptr b off \<Rightarrow> Ptr b (Suc off))"


subsection \<open>Functions of the C library\<close>

definition truncf :: "real \<Rightarrow> real" where
  "truncf x = (if 0 \<le> x then of_int \<lfloor>x\<rfloor> else of_int \<lceil>x\<rceil>)"

definition floorf :: "real \<Rightarrow> real" where
  "floorf x = of_int \<lfloor>x\<rfloor>"

definition fabs :: "real \<Rightarrow> real" where
  "fabs x = \<bar>x\<bar>"

text \<open>\<open>fmod x y\<close> for \<open>y \<noteq> 0\<close>: the remainder of the division truncated toward zero.\<close>

definition fmod :: "real \<Rightarrow> real \<Rightarrow> real" where
  "fmod x y = x - y * truncf (x / y)"

subsection \<open>Destructor\<close>


subsection \<open>Configuration of the source (lines 26-87, 188-192)\<close>


definition source_constant :: "float \<Rightarrow> 'w Signal \<Rightarrow> 'w Signal" where
  "source_constant val s = s\<lparr>m_src := SRC_CONSTANT, m_src_v1 := val\<rparr>"






definition source_buffer :: "ptr \<Rightarrow> size_t \<Rightarrow> bool \<Rightarrow> 'w Signal \<Rightarrow> 'w Signal" where
  "source_buffer buf len repeat s =
     s\<lparr>m_src := SRC_BUFFER, m_src_buf := buf, m_src_buf_len := len,
       m_src_buf_repeat := repeat, m_src_i := 0\<rparr>"

definition source_callback :: "(64 word \<Rightarrow> 'w \<Rightarrow> float \<times> 'w) \<Rightarrow> 'w Signal \<Rightarrow> 'w Signal" where
  "source_callback callback s =
     s\<lparr>m_src := SRC_CALLBACK, m_src_callback := callback, m_src_i := 0\<rparr>"

subsection \<open>Configuration of the destination (lines 89-100)\<close>

definition measure_buffer :: "ptr \<Rightarrow> size_t \<Rightarrow> 'w Signal \<Rightarrow> 'w Signal" where
  "measure_buffer buf len s =
     s\<lparr>m_dest := DEST_BUFFER, m_dest_buf := buf, m_dest_buf_len := len\<rparr>"

definition measure_callback :: "(float \<Rightarrow> 'w \<Rightarrow> 'w) \<Rightarrow> 'w Signal \<Rightarrow> 'w Signal" where
  "measure_callback callback s =
     s\<lparr>m_dest := DEST_CALLBACK, m_dest_callback := callback\<rparr>"

subsection \<open>\<open>put_sample\<close> (lines 102-113)\<close>

definition put_sample :: "float \<Rightarrow> 'w machine \<Rightarrow> error + 'w machine" where
  "put_sample val m =
     (let s = (signal m)\<lparr>m_latest_measurement := val\<rparr> in
      case m_dest s of
        DEST_BUFFER \<Rightarrow>
          if m_dest_buf_len s \<noteq> 0 then
            (case store (heap m) (m_dest_buf s) val of
               Inl e \<Rightarrow> Inl e
             | Inr h \<Rightarrow>
                 Inr (m\<lparr>signal := s\<lparr>m_dest_buf := ptr_inc (m_dest_buf s),
                                     m_dest_buf_len := m_dest_buf_len s - 1\<rparr>,
                         heap := h\<rparr>))
          else Inr (m\<lparr>signal := s\<rparr>)
      | DEST_CALLBACK \<Rightarrow>
          Inr (m\<lparr>signal := s, world := m_dest_callback s val (world m)\<rparr>)
      | DEST_NONE \<Rightarrow> Inr (m\<lparr>signal := s\<rparr>))"

subsection \<open>\<open>get_sample\<close> (lines 115-186)\<close>

text \<open>Lines 143-145: the normalised phase handed to the waveform formulas.\<close>

definition norm_phase :: "double \<Rightarrow> double \<Rightarrow> double" where
  "norm_phase phase period =
     (let n = phase / period in if n < 0 then n + 1 else n)"

text \<open>Lines 153-168: the divisor of the sawtooth.\<close>

definition max_int_phase :: "double \<Rightarrow> double \<Rightarrow> float" where
  "max_int_phase period phase =
     (let int_period = truncf period;
          int_phase = truncf phase;
          frac_period = period - int_period;
          frac_phase = phase - int_phase
      in if frac_period \<le> frac_phase then int_period - 1 else int_period)"

text \<open>
  Lines 148-183: the inner switch. \<open>phase\<close> is the stored phase before it is advanced,
  \<open>np\<close> the normalised phase.
\<close>

definition waveform :: "'w Signal \<Rightarrow> double \<Rightarrow> double \<Rightarrow> sample" where
  "waveform s phase np =
     (let peak_to_peak = m_src_v2 s - m_src_v1 s in
      case m_src s of
        SRC_SQUARE \<Rightarrow> Finite (if np < m_src_duty s then m_src_v1 s else m_src_v2 s)
      | SRC_SAWTOOTH \<Rightarrow>
          (let d = max_int_phase (m_src_period s) phase in
           if d = 0 then NonFinite
           else Finite (m_src_v2 s - truncf phase / d * peak_to_peak))
      | SRC_STAIRSTEP \<Rightarrow> Finite (m_src_v2 s - floorf (np * 10) * peak_to_peak / 9)
      | SRC_SINE \<Rightarrow> Finite (m_src_v1 s + (1 + cos (np * 2 * pi)) * peak_to_peak / 2)
      | SRC_TRIANGLE \<Rightarrow> Finite (m_src_v1 s + fabs (1 - np * 2) * peak_to_peak)
      | _ \<Rightarrow> Finite 0)"

text \<open>Line 129: \<open>return m_src_buf[m_src_i++]\<close>.\<close>

definition read_src_buf :: "'w machine \<Rightarrow> error + (sample \<times> 'w machine)" where
  "read_src_buf m =
     (let s = signal m in
      case load (heap m) (m_src_buf s) (unat (m_src_i s)) of
        Inl e \<Rightarrow> Inl e
      | Inr v \<Rightarrow> Inr (Finite v, m\<lparr>signal := s\<lparr>m_src_i := m_src_i s + 1\<rparr>\<rparr>))"

definition get_sample :: "'w machine \<Rightarrow> error + (sample \<times> 'w machine)" where
  "get_sample m =
     (let s = signal m in
      case m_src s of
        SRC_CONSTANT \<Rightarrow> Inr (Finite (m_src_v1 s), m)
      | SRC_BUFFER \<Rightarrow>
          if m_src_buf_len s \<le> m_src_i s then
            if m_src_buf_repeat s
            then read_src_buf (m\<lparr>signal := s\<lparr>m_src_i := 0\<rparr>\<rparr>)
            else (case load (heap m) (m_src_buf s) (unat (m_src_buf_len s - 1)) of
                    Inl e \<Rightarrow> Inl e
                  | Inr v \<Rightarrow> Inr (Finite v, m))
          else read_src_buf m
      | SRC_CALLBACK \<Rightarrow>
          (case m_src_callback s (m_src_i s) (world m) of
             (v, w) \<Rightarrow>
               Inr (Finite v, m\<lparr>signal := s\<lparr>m_src_i := m_src_i s + 1\<rparr>, world := w\<rparr>))
      | _ \<Rightarrow>
          if m_src_period s = 0 then Inl NonFinitePhase
          else
            (let phase = m_src_phase s;
                 np = norm_phase phase (m_src_period s);
                 m' = m\<lparr>signal := s\<lparr>m_src_phase := fmod (m_src_phase s + 1) (m_src_period s)\<rparr>\<rparr>
             in Inr (waveform s phase np, m')))"

text \<open>
  \<open>n\<close> successive calls of \<open>get_sample\<close> with nothing in between: the values returned,
  in order, and the state reached.
\<close>

fun get_samples :: "nat \<Rightarrow> 'w machine \<Rightarrow> error + (sample list \<times> 'w machine)" where
  "get_samples 0 m = Inr ([], m)"
| "get_samples (Suc n) m =
     (case get_sample m of
        Inl e \<Rightarrow> Inl e
      | Inr (v, m') \<Rightarrow>
          (case get_samples n m' of
             Inl e \<Rightarrow> Inl e
           | Inr (vs, m'') \<Rightarrow> Inr (v # vs, m'')))"

subsection \<open>The formulas of the specification\<close>




subsection \<open>Auxiliary notions used in the statements\<close>

text \<open>
  The read index of the buffer source replaced, everything else kept.
\<close>

definition set_src_i :: "size_t \<Rightarrow> 'w machine \<Rightarrow> 'w machine" where
  "set_src_i j m = m\<lparr>signal := (signal m)\<lparr>m_src_i := j\<rparr>\<rparr>"

text \<open>
  A buffer source over the block \<open>b\<close> holding \<open>data\<close>: the pointer is the start of the
  block and the configured length is positive and within the block.
\<close>

definition buffer_ready :: "'w machine \<Rightarrow> nat \<Rightarrow> float list \<Rightarrow> bool" where
  "buffer_ready m b data \<longleftrightarrow>
     m_src (signal m) = SRC_BUFFER \<and> m_src_buf (signal m) = Ptr b 0 \<and>
     heap m b = Some data \<and> m_src_buf_len (signal m) \<noteq> 0 \<and>
     unat (m_src_buf_len (signal m)) \<le> length data"

text \<open>
  Everything that belongs to the source side of a Signal.
\<close>

definition source_state ::
  "'w Signal \<Rightarrow> Src \<times> float \<times> float \<times> double \<times> double \<times> double \<times> ptr \<times> size_t \<times> size_t \<times> bool
     \<times> (64 word \<Rightarrow> 'w \<Rightarrow> float \<times> 'w)" where
  "source_state s =
     (m_src s, m_src_v1 s, m_src_v2 s, m_src_period s, m_src_duty s, m_src_phase s,
      m_src_buf s, m_src_i s, m_src_buf_len s, m_src_buf_repeat s, m_src_callback s)"


text \<open>
  The stored phase replaced, everything else kept.
\<close>

definition set_src_phase :: "double \<Rightarrow> 'w machine \<Rightarrow> 'w machine" where
  "set_src_phase x m = m\<lparr>signal := (signal m)\<lparr>m_src_phase := x\<rparr>\<rparr>"

text \<open>
  The stored phase after \<open>n\<close> calls of \<open>get_sample\<close> on a source of period \<open>P\<close> that
  starts at phase \<open>x\<close>: the update of line 146 applied \<open>n\<close> times.
\<close>

fun phase_seq :: "double \<Rightarrow> double \<Rightarrow> nat \<Rightarrow> double" where
  "phase_seq P x 0 = x"
| "phase_seq P x (Suc n) = phase_seq P (fmod (x + 1) P) n"


subsection \<open>Concrete states for the examples\<close>

text \<open>
  A fully initialised Signal with no destination and a constant source. The
  constructor is declared in the header; the examples below configure every field
  they depend on.
\<close>

definition idle_signal :: "unit Signal" where
  "idle_signal =
     \<lparr>m_src = SRC_CONSTANT, m_src_v1 = 0, m_src_v2 = 0, m_src_period = 0, m_src_duty = 0,
      m_src_phase = 0, m_src_buf = Null, m_src_i = 0, m_src_buf_len = 0,
      m_src_buf_repeat = False, m_src_callback = (\<lambda>i w. (0, w)),
      m_dest = DEST_NONE, m_dest_buf = Null, m_dest_buf_len = 0,
      m_dest_callback = (\<lambda>v w. w), m_latest_measurement = 0\<rparr>"

text \<open>
  The three-element buffer \<open>[1, 2, 3]\<close> of the specification as a source.
\<close>

definition buffer_machine :: "bool \<Rightarrow> unit machine" where
  "buffer_machine repeat =
     \<lparr>signal = source_buffer (Ptr 0 0) 3 repeat idle_signal, heap = [0 \<mapsto> [1, 2, 3]], world = ()\<rparr>"

text \<open>
  A buffer source of length 0 over a block \<open>xs\<close>.
\<close>

definition empty_buffer_machine :: "float list \<Rightarrow> bool \<Rightarrow> unit machine" where
  "empty_buffer_machine xs repeat =
     \<lparr>signal = source_buffer (Ptr 0 0) 0 repeat idle_signal, heap = [0 \<mapsto> xs], world = ()\<rparr>"

text \<open>
  A destination of the given kind and remaining capacity; the destination pointer is
  the second cell of a two-element block and the sink appends to the world.
\<close>

definition dest_machine :: "Dest \<Rightarrow> size_t \<Rightarrow> float list machine" where
  "dest_machine d len =
     \<lparr>signal =
        \<lparr>m_src = SRC_CONSTANT, m_src_v1 = 0, m_src_v2 = 0, m_src_period = 0, m_src_duty = 0,
         m_src_phase = 0, m_src_buf = Null, m_src_i = 0, m_src_buf_len = 0,
         m_src_buf_repeat = False, m_src_callback = (\<lambda>i w. (0, w)),
         m_dest = d, m_dest_buf = Ptr 0 1, m_dest_buf_len = len,
         m_dest_callback = (\<lambda>v w. w @ [v]), m_latest_measurement = 0\<rparr>,
      heap = [0 \<mapsto> [5, 0]], world = []\<rparr>"


section \<open>Helper lemmas\<close>

subsection \<open>Running a source\<close>

lemma get_samples_Suc:
  assumes "get_sample m = Inr (v, m1)" "get_samples N m1 = Inr (vs, m2)"
  shows "get_samples (Suc N) m = Inr (v # vs, m2)"
  using assms by simp

lemma upt_5: "[0..<5] = [0, 1, 2, 3, 4]"
  by (simp add: upt_rec)


subsection \<open>Buffer source\<close>

lemma unat_succ_below:
  fixes i len :: "64 word"
  assumes "i < len"
  shows "unat (i + 1) = Suc (unat i)"
proof -
  have "unat i < unat len" using assms by (simp add: word_less_nat_alt)
  moreover have "unat len < 2 ^ 64" using unsigned_less [of len] by simp
  ultimately have "unat i + unat (1 :: 64 word) < 2 ^ LENGTH(64)" by simp
  then have "unat (i + 1) = unat i + unat (1 :: 64 word)" by (simp only: unat_add_lem)
  then show ?thesis by simp
qed

lemma buffer_ready_set [simp]: "buffer_ready (set_src_i j m) b data = buffer_ready m b data"
  by (simp add: buffer_ready_def set_src_i_def)

lemma set_src_i_sel [simp]:
  "signal (set_src_i j m) = (signal m)\<lparr>m_src_i := j\<rparr>"
  "heap (set_src_i j m) = heap m" "world (set_src_i j m) = world m"
  by (simp_all add: set_src_i_def)

lemma set_src_i_twice [simp]: "set_src_i j (set_src_i k m) = set_src_i j m"
  by (simp add: set_src_i_def)

lemma buffer_step_below:
  assumes "buffer_ready m b data" "m_src_i (signal m) < m_src_buf_len (signal m)"
  shows "get_sample m = Inr (Finite (data ! unat (m_src_i (signal m))), set_src_i (m_src_i (signal m) + 1) m)"
proof -
  have "unat (m_src_i (signal m)) < length data"
    using assms by (simp add: buffer_ready_def word_less_nat_alt)
  then show ?thesis
    using assms by (simp add: buffer_ready_def get_sample_def read_src_buf_def load_def set_src_i_def
        Let_def linorder_not_le [symmetric])
qed

lemma buffer_step_hold:
  assumes "buffer_ready m b data" "m_src_buf_len (signal m) \<le> m_src_i (signal m)"
    "\<not> m_src_buf_repeat (signal m)"
  shows "get_sample m = Inr (Finite (data ! (unat (m_src_buf_len (signal m)) - 1)), m)"
proof -
  have "unat (m_src_buf_len (signal m) - 1) = unat (m_src_buf_len (signal m)) - 1"
    using assms by (simp add: buffer_ready_def unat_minus_one)
  moreover have "0 < unat (m_src_buf_len (signal m))"
    using assms by (simp add: buffer_ready_def unat_gt_0)
  ultimately show ?thesis
    using assms by (auto simp add: buffer_ready_def get_sample_def load_def Let_def)
qed

lemma buffer_step_restart:
  assumes "buffer_ready m b data" "m_src_buf_len (signal m) \<le> m_src_i (signal m)"
    "m_src_buf_repeat (signal m)"
  shows "get_sample m = Inr (Finite (data ! 0), set_src_i 1 m)"
proof -
  have "0 < unat (m_src_buf_len (signal m))"
    using assms by (simp add: buffer_ready_def unat_gt_0)
  then have "data \<noteq> []" using assms by (auto simp add: buffer_ready_def)
  then show ?thesis
    using assms by (simp add: buffer_ready_def get_sample_def read_src_buf_def load_def set_src_i_def Let_def)
qed

lemma buffer_hold_run:
  assumes "buffer_ready m b data" "\<not> m_src_buf_repeat (signal m)"
    "unat (m_src_i (signal m)) = i" "unat (m_src_buf_len (signal m)) = L" "i \<le> L"
  shows "\<exists>j. get_samples N m = Inr (map (\<lambda>n. Finite (data ! min (i + n) (L - 1))) [0..<N], set_src_i j m)
         \<and> unat j = min (i + N) L"
  using assms
proof (induction N arbitrary: m i)
  case 0
  then show ?case
    by (intro exI [of _ "m_src_i (signal m)"]) (simp add: set_src_i_def)
next
  case (Suc N)
  let ?i = "m_src_i (signal m)" and ?len = "m_src_buf_len (signal m)"
  have split: "map (\<lambda>n. Finite (data ! min (i + n) (L - 1))) [0..<Suc N] =
      Finite (data ! min i (L - 1)) # map (\<lambda>n. Finite (data ! min (Suc i + n) (L - 1))) [0..<N]"
    by (simp add: map_upt_Suc del: upt_Suc)
  show ?case
  proof (cases "i < L")
    case True
    then have below: "?i < ?len" using Suc.prems by (simp add: word_less_nat_alt)
    let ?m1 = "set_src_i (?i + 1) m"
    have "get_sample m = Inr (Finite (data ! unat ?i), ?m1)"
      using Suc.prems below by (simp add: buffer_step_below)
    moreover have "min i (L - 1) = i" using True by simp
    ultimately have step: "get_sample m = Inr (Finite (data ! min i (L - 1)), ?m1)"
      using Suc.prems by simp
    have i1: "unat (m_src_i (signal ?m1)) = Suc i"
      using unat_succ_below [OF below] Suc.prems by simp
    obtain j where
      run: "get_samples N ?m1 = Inr (map (\<lambda>n. Finite (data ! min (Suc i + n) (L - 1))) [0..<N], set_src_i j ?m1)"
      and j: "unat j = min (Suc i + N) L"
      using Suc.IH [of ?m1 "Suc i"] Suc.prems i1 True by auto
    have "get_samples (Suc N) m =
        Inr (Finite (data ! min i (L - 1)) # map (\<lambda>n. Finite (data ! min (Suc i + n) (L - 1))) [0..<N], set_src_i j m)"
      using get_samples_Suc [OF step run] by simp
    then have "get_samples (Suc N) m =
        Inr (map (\<lambda>n. Finite (data ! min (i + n) (L - 1))) [0..<Suc N], set_src_i j m)"
      by (simp only: split)
    moreover have "unat j = min (i + Suc N) L" using j by simp
    ultimately show ?thesis by blast
  next
    case False
    then have eq: "i = L" using Suc.prems by simp
    then have ge: "?len \<le> ?i" using Suc.prems by (simp add: word_le_nat_alt)
    have step: "get_sample m = Inr (Finite (data ! (L - 1)), m)"
      using Suc.prems ge buffer_step_hold [of m b data] by simp
    obtain j where
      run: "get_samples N m = Inr (map (\<lambda>n. Finite (data ! min (i + n) (L - 1))) [0..<N], set_src_i j m)"
      and j: "unat j = min (i + N) L"
      using Suc.IH [of m i] Suc.prems by blast
    have pos: "0 < L"
      using Suc.prems by (auto simp add: buffer_ready_def unat_gt_0)
    have same: "min (k + n) (L - 1) = L - 1" if "L \<le> k" for k n
      using that pos by simp
    have "map (\<lambda>n. Finite (data ! min (i + n) (L - 1))) [0..<N] =
          map (\<lambda>n. Finite (data ! min (Suc i + n) (L - 1))) [0..<N]"
      using eq by (simp add: same)
    moreover have "data ! (L - 1) = data ! min i (L - 1)"
      using same [of i 0] eq by simp
    ultimately have "get_samples (Suc N) m =
        Inr (Finite (data ! min i (L - 1)) # map (\<lambda>n. Finite (data ! min (Suc i + n) (L - 1))) [0..<N], set_src_i j m)"
      using get_samples_Suc [OF step run] by simp
    then have "get_samples (Suc N) m =
        Inr (map (\<lambda>n. Finite (data ! min (i + n) (L - 1))) [0..<Suc N], set_src_i j m)"
      by (simp only: split)
    moreover have "unat j = min (i + Suc N) L" using j eq by simp
    ultimately show ?thesis by blast
  qed
qed

lemma buffer_repeat_run:
  assumes "buffer_ready m b data" "m_src_buf_repeat (signal m)"
    "unat (m_src_i (signal m)) = i" "unat (m_src_buf_len (signal m)) = L" "i \<le> L"
  shows "\<exists>j. get_samples N m = Inr (map (\<lambda>n. Finite (data ! ((i + n) mod L))) [0..<N], set_src_i j m)
         \<and> unat j \<le> L"
  using assms
proof (induction N arbitrary: m i)
  case 0
  then show ?case
    by (intro exI [of _ "m_src_i (signal m)"]) (simp add: set_src_i_def)
next
  case (Suc N)
  let ?i = "m_src_i (signal m)" and ?len = "m_src_buf_len (signal m)"
  have pos: "0 < L"
    using Suc.prems by (auto simp add: buffer_ready_def unat_gt_0)
  have split: "map (\<lambda>n. Finite (data ! ((i + n) mod L))) [0..<Suc N] =
      Finite (data ! (i mod L)) # map (\<lambda>n. Finite (data ! ((Suc i + n) mod L))) [0..<N]"
    by (simp add: map_upt_Suc del: upt_Suc)
  show ?case
  proof (cases "i < L")
    case True
    then have below: "?i < ?len" using Suc.prems by (simp add: word_less_nat_alt)
    let ?m1 = "set_src_i (?i + 1) m"
    have "get_sample m = Inr (Finite (data ! unat ?i), ?m1)"
      using Suc.prems below by (simp add: buffer_step_below)
    then have step: "get_sample m = Inr (Finite (data ! (i mod L)), ?m1)"
      using Suc.prems True by simp
    have i1: "unat (m_src_i (signal ?m1)) = Suc i"
      using unat_succ_below [OF below] Suc.prems by simp
    obtain j where
      run: "get_samples N ?m1 = Inr (map (\<lambda>n. Finite (data ! ((Suc i + n) mod L))) [0..<N], set_src_i j ?m1)"
      and j: "unat j \<le> L"
      using Suc.IH [of ?m1 "Suc i"] Suc.prems i1 True by auto
    have "get_samples (Suc N) m =
        Inr (Finite (data ! (i mod L)) # map (\<lambda>n. Finite (data ! ((Suc i + n) mod L))) [0..<N], set_src_i j m)"
      using get_samples_Suc [OF step run] by simp
    then have "get_samples (Suc N) m =
        Inr (map (\<lambda>n. Finite (data ! ((i + n) mod L))) [0..<Suc N], set_src_i j m)"
      by (simp only: split)
    then show ?thesis using j by blast
  next
    case False
    then have eq: "i = L" using Suc.prems by simp
    then have ge: "?len \<le> ?i" using Suc.prems by (simp add: word_le_nat_alt)
    let ?m1 = "set_src_i 1 m"
    have "get_sample m = Inr (Finite (data ! 0), ?m1)"
      using Suc.prems ge buffer_step_restart [of m b data] by simp
    then have step: "get_sample m = Inr (Finite (data ! (i mod L)), ?m1)"
      using eq by simp
    have i1: "unat (m_src_i (signal ?m1)) = 1" by simp
    obtain j where
      run: "get_samples N ?m1 = Inr (map (\<lambda>n. Finite (data ! ((1 + n) mod L))) [0..<N], set_src_i j ?m1)"
      and j: "unat j \<le> L"
      using Suc.IH [of ?m1 1] Suc.prems i1 pos by auto
    have "(1 + n) mod L = (Suc i + n) mod L" for n
      using eq by (simp add: mod_Suc)
    then have "map (\<lambda>n. Finite (data ! ((1 + n) mod L))) [0..<N] =
          map (\<lambda>n. Finite (data ! ((Suc i + n) mod L))) [0..<N]"
      by simp
    then have "get_samples (Suc N) m =
        Inr (Finite (data ! (i mod L)) # map (\<lambda>n. Finite (data ! ((Suc i + n) mod L))) [0..<N], set_src_i j m)"
      using get_samples_Suc [OF step run] by simp
    then have "get_samples (Suc N) m =
        Inr (map (\<lambda>n. Finite (data ! ((i + n) mod L))) [0..<Suc N], set_src_i j m)"
      by (simp only: split)
    then show ?thesis using j by blast
  qed
qed

subsection \<open>Truncation, remainder and fractional part\<close>












subsection \<open>Normalised phase and the sequence of phases\<close>











lemma phase_seq_Suc_back: "phase_seq P x (Suc n) = fmod (phase_seq P x n + 1) P"
  by (induction n arbitrary: x) simp_all



subsection \<open>One call and many calls on a periodic source\<close>


lemma set_src_phase_sel [simp]:
  "signal (set_src_phase x m) = (signal m)\<lparr>m_src_phase := x\<rparr>"
  "heap (set_src_phase x m) = heap m" "world (set_src_phase x m) = world m"
  by (simp_all add: set_src_phase_def)

lemma set_src_phase_twice [simp]: "set_src_phase x (set_src_phase y m) = set_src_phase x m"
  by (simp add: set_src_phase_def)

lemma waveform_phase_update [simp]: "waveform (s\<lparr>m_src_phase := x\<rparr>) = waveform s"
  by (intro ext) (simp add: waveform_def Let_def split: Src.splits)











section \<open>Claims\<close>










text \<open>
  C4. A buffer source configured by \<open>source_buffer(data, length, repeat)\<close> with
  \<open>length \<ge> 1\<close> over storage that holds at least \<open>length\<close> elements: the first
  \<open>length\<close> calls of \<open>get_sample\<close> return \<open>data[0..length-1]\<close> in order. After that,
  with \<open>repeat\<close> the sequence starts again at \<open>data[0]\<close>; without \<open>repeat\<close> every
  further call returns \<open>data[length-1]\<close> and the read index stays at \<open>length\<close>. The
  store is not changed.
\<close>

theorem buffer_source_sequence:
  fixes m :: "'w machine"
  assumes "signal m = source_buffer (Ptr b 0) len repeat s0"
    and "heap m b = Some data"
    and "len \<noteq> 0"
    and "unat len \<le> length data"
  shows "\<exists>m'. get_samples N m =
           Inr (map (\<lambda>n. Finite (if n < unat len then data ! n
                                  else if repeat then data ! (n mod unat len)
                                  else data ! (unat len - 1))) [0..<N], m')
         \<and> heap m' = heap m
         \<and> (\<not> repeat \<and> unat len \<le> N \<longrightarrow> m_src_i (signal m') = len)"
proof -
  have ready: "buffer_ready m b data"
    using assms by (simp add: buffer_ready_def source_buffer_def)
  have sel: "unat (m_src_i (signal m)) = 0" "unat (m_src_buf_len (signal m)) = unat len"
    "m_src_buf_repeat (signal m) = repeat"
    using assms by (simp_all add: source_buffer_def)
  have pos: "0 < unat len" using assms by (simp add: unat_gt_0)
  show ?thesis
  proof (cases repeat)
    case True
    obtain j where run: "get_samples N m =
        Inr (map (\<lambda>n. Finite (data ! ((0 + n) mod unat len))) [0..<N], set_src_i j m)"
      using buffer_repeat_run [OF ready _ sel(1) sel(2), of N] sel(3) True by auto
    have "map (\<lambda>n. Finite (data ! ((0 + n) mod unat len))) [0..<N] =
          map (\<lambda>n. Finite (if n < unat len then data ! n
                                  else if repeat then data ! (n mod unat len)
                                  else data ! (unat len - 1))) [0..<N]"
      using True by simp
    then show ?thesis using run True by (intro exI [of _ "set_src_i j m"]) simp
  next
    case False
    obtain j where run: "get_samples N m =
        Inr (map (\<lambda>n. Finite (data ! min (0 + n) (unat len - 1))) [0..<N], set_src_i j m)"
      and j: "unat j = min (0 + N) (unat len)"
      using buffer_hold_run [OF ready _ sel(1) sel(2), of N] sel(3) False by auto
    have "min n (unat len - 1) = (if n < unat len then n else unat len - 1)" for n
      using pos by auto
    then have "map (\<lambda>n. Finite (data ! min (0 + n) (unat len - 1))) [0..<N] =
          map (\<lambda>n. Finite (if n < unat len then data ! n
                                  else if repeat then data ! (n mod unat len)
                                  else data ! (unat len - 1))) [0..<N]"
      using False by simp
    moreover have "unat len \<le> N \<longrightarrow> j = len"
      using j by (auto simp add: min_def word_unat_eq_iff)
    ultimately show ?thesis using run False by (intro exI [of _ "set_src_i j m"]) simp
  qed
qed

text \<open>
  The example of the specification: over \<open>[1, 2, 3]\<close> the fourth and fifth calls
  return 3 without \<open>repeat\<close>, and 1, 2 with it.
\<close>

theorem buffer_source_sequence_witness:
  "(\<exists>m'. get_samples 5 (buffer_machine False) = Inr (map Finite [1, 2, 3, 3, 3], m')
         \<and> m_src_i (signal m') = 3)
   \<and> (\<exists>m'. get_samples 5 (buffer_machine True) = Inr (map Finite [1, 2, 3, 1, 2], m'))"
proof -
  have "\<exists>m'. get_samples 5 (buffer_machine False) = Inr (map Finite [1, 2, 3, 3, 3], m')
         \<and> m_src_i (signal m') = 3"
    using buffer_source_sequence [of "buffer_machine False" 0 3 False idle_signal "[1, 2, 3]" 5]
    by (auto simp add: buffer_machine_def upt_5)
  moreover have "\<exists>m'. get_samples 5 (buffer_machine True) = Inr (map Finite [1, 2, 3, 1, 2], m')"
    using buffer_source_sequence [of "buffer_machine True" 0 3 True idle_signal "[1, 2, 3]" 5]
    by (auto simp add: buffer_machine_def upt_5)
  ultimately show ?thesis by blast
qed

text \<open>
  C5. \<open>put_sample(value)\<close> always records \<open>value\<close> as the latest measurement. With no
  destination, or with a destination buffer whose remaining capacity is 0, nothing
  else changes. With a destination buffer that has capacity left (and whose pointer
  addresses a cell of the caller's storage) the value is written at the pointer, the
  pointer moves on by one and the remaining capacity drops by one. With a callback
  destination the sink is invoked with the value.
\<close>

theorem put_sample_effect:
  fixes m :: "'w machine" and val :: float
  defines "s \<equiv> (signal m)\<lparr>m_latest_measurement := val\<rparr>"
  shows "(m_dest (signal m) = DEST_NONE \<longrightarrow> put_sample val m = Inr (m\<lparr>signal := s\<rparr>))
    \<and> (m_dest (signal m) = DEST_BUFFER \<and> m_dest_buf_len (signal m) = 0 \<longrightarrow>
           put_sample val m = Inr (m\<lparr>signal := s\<rparr>))
    \<and> (m_dest (signal m) = DEST_BUFFER \<and> m_dest_buf_len (signal m) \<noteq> 0 \<and>
         m_dest_buf (signal m) = Ptr b off \<and> heap m b = Some xs \<and> off < length xs \<longrightarrow>
           put_sample val m =
             Inr (m\<lparr>signal := s\<lparr>m_dest_buf := Ptr b (Suc off),
                                 m_dest_buf_len := m_dest_buf_len (signal m) - 1\<rparr>,
                     heap := (heap m)(b \<mapsto> xs[off := val])\<rparr>))
    \<and> (m_dest (signal m) = DEST_CALLBACK \<longrightarrow>
           put_sample val m =
             Inr (m\<lparr>signal := s, world := m_dest_callback (signal m) val (world m)\<rparr>))
    \<and> (\<forall>m'. put_sample val m = Inr m' \<longrightarrow> m_latest_measurement (signal m') = val)"
proof -
  have "m_latest_measurement (signal m') = val" if "put_sample val m = Inr m'" for m'
    using that by (auto simp: put_sample_def Let_def split: Dest.splits if_splits sum.splits)
  then show ?thesis
    by (simp add: put_sample_def s_def store_def ptr_inc_def)
qed

theorem put_sample_effect_witness:
  "(\<exists>m'. put_sample 7 (dest_machine DEST_NONE 1) = Inr m'
       \<and> m_latest_measurement (signal m') = 7 \<and> heap m' 0 = Some [5, 0] \<and> world m' = [])
   \<and> (\<exists>m'. put_sample 7 (dest_machine DEST_BUFFER 0) = Inr m'
       \<and> m_latest_measurement (signal m') = 7 \<and> heap m' 0 = Some [5, 0]
       \<and> m_dest_buf_len (signal m') = 0)
   \<and> (\<exists>m'. put_sample 7 (dest_machine DEST_BUFFER 1) = Inr m'
       \<and> m_latest_measurement (signal m') = 7 \<and> heap m' 0 = Some [5, 7]
       \<and> m_dest_buf (signal m') = Ptr 0 2 \<and> m_dest_buf_len (signal m') = 0)
   \<and> (\<exists>m'. put_sample 7 (dest_machine DEST_CALLBACK 1) = Inr m'
       \<and> m_latest_measurement (signal m') = 7 \<and> heap m' 0 = Some [5, 0] \<and> world m' = [7])"
proof -
  have "\<exists>m'. put_sample 7 (dest_machine DEST_NONE 1) = Inr m'
       \<and> m_latest_measurement (signal m') = 7 \<and> heap m' 0 = Some [5, 0] \<and> world m' = []"
    using put_sample_effect [of "dest_machine DEST_NONE 1" 7]
    by (simp add: dest_machine_def)
  moreover have "\<exists>m'. put_sample 7 (dest_machine DEST_BUFFER 0) = Inr m'
       \<and> m_latest_measurement (signal m') = 7 \<and> heap m' 0 = Some [5, 0]
       \<and> m_dest_buf_len (signal m') = 0"
    using put_sample_effect [of "dest_machine DEST_BUFFER 0" 7]
    by (simp add: dest_machine_def)
  moreover have "\<exists>m'. put_sample 7 (dest_machine DEST_BUFFER 1) = Inr m'
       \<and> m_latest_measurement (signal m') = 7 \<and> heap m' 0 = Some [5, 7]
       \<and> m_dest_buf (signal m') = Ptr 0 2 \<and> m_dest_buf_len (signal m') = 0"
    using put_sample_effect [of "dest_machine DEST_BUFFER 1" 7 0 1 "[5, 0]"]
    by (simp add: dest_machine_def)
  moreover have "\<exists>m'. put_sample 7 (dest_machine DEST_CALLBACK 1) = Inr m'
       \<and> m_latest_measurement (signal m') = 7 \<and> heap m' 0 = Some [5, 0] \<and> world m' = [7]"
    using put_sample_effect [of "dest_machine DEST_CALLBACK 1" 7]
    by (simp add: dest_machine_def)
  ultimately show ?thesis by blast
qed

text \<open>
  C6. \<open>get_sample\<close> is claimed to index no buffer out of bounds, also for a buffer
  source of length 0. On a source of length 0 the code reads the element at index
  \<open>m_src_buf_len - 1\<close>, which wraps to \<open>2^64 - 1\<close>, when \<open>repeat\<close> is off, and the
  element at index 0 of storage that holds none when \<open>repeat\<close> is on.
\<close>

theorem get_sample_empty_buffer:
  "get_sample (empty_buffer_machine [1, 2, 3] False) = Inl OutOfBounds
   \<and> get_sample (empty_buffer_machine [] True) = Inl OutOfBounds"
  by (simp add: get_sample_def read_src_buf_def empty_buffer_machine_def source_buffer_def
      idle_signal_def load_def unsigned_minus_1_eq_mask mask_eq_exp_minus_1)




text \<open>
  C8. \<open>measure_buffer\<close> and \<open>measure_callback\<close> set the destination kind and the
  destination state; the latest measurement and the whole source side (kind,
  waveform parameters, phase, period, buffer, read index, callback) are as before.
\<close>

theorem measure_frame:
  "source_state (measure_buffer buf len s) = source_state s
   \<and> m_latest_measurement (measure_buffer buf len s) = m_latest_measurement s
   \<and> m_dest (measure_buffer buf len s) = DEST_BUFFER
   \<and> m_dest_buf (measure_buffer buf len s) = buf
   \<and> m_dest_buf_len (measure_buffer buf len s) = len
   \<and> m_dest_callback (measure_buffer buf len s) = m_dest_callback s
   \<and> source_state (measure_callback cb s) = source_state s
   \<and> m_latest_measurement (measure_callback cb s) = m_latest_measurement s
   \<and> m_dest (measure_callback cb s) = DEST_CALLBACK
   \<and> m_dest_callback (measure_callback cb s) = cb
   \<and> m_dest_buf (measure_callback cb s) = m_dest_buf s
   \<and> m_dest_buf_len (measure_callback cb s) = m_dest_buf_len s"
  by (simp add: measure_buffer_def measure_callback_def source_state_def)






end
